theory Spec2Isabelle
  imports Main "HOL-Library.Sublist"
begin

section \<open>Byte strings and errors\<close>

text \<open>
  Go's \<^verbatim>\<open>[]byte\<close> and \<^verbatim>\<open>string\<close> are both sequences of bytes; both are modelled
  as \<^typ>\<open>string\<close> (a list of 8-bit characters). A nil slice and an empty slice are not
  told apart by anything the service does (\<^verbatim>\<open>len\<close>, \<^verbatim>\<open>copy\<close>, \<^verbatim>\<open>string(...)\<close>), and
  both are the empty list.

  A Go function returning \<^verbatim>\<open>(value, error)\<close> is modelled as a pair whose second
  component is \<^term>\<open>None\<close> for a nil error. The errors of the service are built by
  \<^verbatim>\<open>errors.New\<close> and \<^verbatim>\<open>fmt.Errorf\<close>, so they carry their message text; the base64
  decoder reports \<^verbatim>\<open>base64.CorruptInputError(offset)\<close>; what a cipher or decipher
  reports is opaque to the service.
\<close>

datatype error =
    errorString string
  | CorruptInputError nat
  | CapabilityError string

definition quote :: "string \<Rightarrow> string" where
  "quote s = [CHR 0x27] @ s @ [CHR 0x27]"

text \<open>\<^verbatim>\<open>copy(dst[off:], src)\<close>: overwrites as many bytes as fit, never grows \<open>dst\<close>.\<close>

definition copy_at :: "string \<Rightarrow> nat \<Rightarrow> string \<Rightarrow> string" where
  "copy_at dst off src =
     take off dst @ take (length dst - off) src @ drop (off + length src) dst"

text \<open>\<^verbatim>\<open>make([]byte, n)\<close>: \<open>n\<close> zero bytes.\<close>

definition make_bytes :: "nat \<Rightarrow> string" where
  "make_bytes n = replicate n (CHR 0x00)"

text \<open>\<^verbatim>\<open>bytes.Index(s, sep)\<close>: the index of the first occurrence of \<open>sep\<close> in \<open>s\<close>, or -1.\<close>

fun bytes_Index :: "string \<Rightarrow> string \<Rightarrow> int" where
  "bytes_Index [] sep = (if sep = [] then 0 else -1)"
| "bytes_Index (c # cs) sep =
     (if prefix sep (c # cs) then 0
      else (let i = bytes_Index cs sep in if i < 0 then -1 else i + 1))"

section \<open>The standard library's unpadded base64 (\<^verbatim>\<open>base64.RawStdEncoding\<close>)\<close>

text \<open>
  \<^verbatim>\<open>encoding/base64\<close> belongs to the Go standard library. The model follows its
  implementation: the standard alphabet, no padding character, and the non-strict
  decoder, which skips carriage returns and line feeds, ignores the unused low bits of
  a final partial group and reports the offset of the first offending byte.
  The shifts and bitwise ors of the library combine disjoint bit fields of an unsigned
  machine word that cannot overflow; they are written as multiplication, division and
  addition on \<^typ>\<open>nat\<close>, and \<^verbatim>\<open>byte(v)\<close> is \<^term>\<open>char_of v\<close> (the low eight bits).
\<close>

definition encodeStd :: string where
  "encodeStd = ''ABCDEFGHIJKLMNOPQRSTUVWXYZabcdefghijklmnopqrstuvwxyz0123456789+/''"

definition encode_char :: "nat \<Rightarrow> char" where
  "encode_char v = encodeStd ! (v mod 64)"

fun index_of :: "char \<Rightarrow> string \<Rightarrow> nat option" where
  "index_of c [] = None"
| "index_of c (x # xs) = (if c = x then Some 0 else map_option Suc (index_of c xs))"

text \<open>The decode table: the position in the alphabet, 0xff for every other byte.\<close>

definition decodeMap :: "char \<Rightarrow> nat" where
  "decodeMap c = (case index_of c encodeStd of None \<Rightarrow> 255 | Some i \<Rightarrow> i)"

definition EncodedLen :: "nat \<Rightarrow> nat" where
  "EncodedLen n = n div 3 * 4 + (n mod 3 * 8 + 5) div 6"

definition DecodedLen :: "nat \<Rightarrow> nat" where
  "DecodedLen n = n div 4 * 3 + n mod 4 * 6 div 8"

text \<open>
  \<^verbatim>\<open>Encode\<close>: three source bytes give four characters; a remainder of two bytes gives
  three characters and a remainder of one byte gives two (no padding is written).
\<close>

fun Encode :: "string \<Rightarrow> string" where
  "Encode (a # b # c # rest) =
     (let val = of_char a * 65536 + of_char b * 256 + of_char c in
      [encode_char (val div 262144), encode_char (val div 4096),
       encode_char (val div 64), encode_char val] @ Encode rest)"
| "Encode [a, b] =
     (let val = of_char a * 65536 + of_char b * 256 in
      [encode_char (val div 262144), encode_char (val div 4096), encode_char (val div 64)])"
| "Encode [a] =
     (let val = of_char a * 65536 in
      [encode_char (val div 262144), encode_char (val div 4096)])"
| "Encode [] = []"

text \<open>
  The bytes of one decoded group (the end of \<^verbatim>\<open>decodeQuantum\<close>): \<open>dlen\<close> collected
  six-bit values give \<open>dlen - 1\<close> bytes.
\<close>

fun quantum :: "nat list \<Rightarrow> string" where
  "quantum [d0, d1, d2, d3] =
     (let val = d0 * 262144 + d1 * 4096 + d2 * 64 + d3 in
      [char_of (val div 65536), char_of (val div 256), char_of val])"
| "quantum [d0, d1, d2] =
     (let val = d0 * 262144 + d1 * 4096 + d2 * 64 in
      [char_of (val div 65536), char_of (val div 256)])"
| "quantum [d0, d1] =
     (let val = d0 * 262144 + d1 * 4096 in [char_of (val div 65536)])"
| "quantum _ = []"

text \<open>
  \<^verbatim>\<open>Decode\<close>'s loop over \<^verbatim>\<open>decodeQuantum\<close>, as one pass over the source: \<open>dbuf\<close> holds
  the six-bit values of the current group, \<open>si\<close> is the offset of the next byte. The
  result is the bytes written and the error. At the end of the input an empty group is
  fine, a group of one value is corrupt (offset \<open>si - 1\<close>), a group of two or three is
  decoded as it is. The word-at-a-time fast paths of the library decode whole groups
  of valid characters to the same bytes and are not modelled apart.
\<close>

fun decode :: "nat list \<Rightarrow> nat \<Rightarrow> string \<Rightarrow> string \<times> error option" where
  "decode dbuf si [] =
     (if length dbuf = 0 then ([], None)
      else if length dbuf = 1 then ([], Some (CorruptInputError (si - 1)))
      else (quantum dbuf, None))"
| "decode dbuf si (c # cs) =
     (let out = decodeMap c in
      if out \<noteq> 255 then
        (if length dbuf = 3 then
           (case decode [] (si + 1) cs of (bs, err) \<Rightarrow> (quantum (dbuf @ [out]) @ bs, err))
         else decode (dbuf @ [out]) (si + 1) cs)
      else if c = CHR 0x0A \<or> c = CHR 0x0D then decode dbuf (si + 1) cs
      else ([], Some (CorruptInputError si)))"

text \<open>
  \<^verbatim>\<open>n, err := Decode(dst, src)\<close>: the decoded bytes overwrite the front of \<open>dst\<close>. The
  library's fast paths may store zero bytes just behind them; the service only passes a
  fresh buffer of zero bytes, where that makes no difference, so the rest of \<open>dst\<close> is
  left as it was.
\<close>

definition Decode :: "string \<Rightarrow> string \<Rightarrow> string \<times> nat \<times> error option" where
  "Decode dst src =
     (case decode [] 0 src of (bs, err) \<Rightarrow> (copy_at dst 0 bs, length bs, err))"

section \<open>The encryption service\<close>

text \<open>
  A cipher and a decipher are the external capabilities
  \<^verbatim>\<open>Encrypt(ctx, payload, secret) ([]byte, error)\<close> and
  \<^verbatim>\<open>Decrypt(ctx, payload, secret) ([]byte, error)\<close>. They are taken as functions of the
  payload and the secret (the context is only passed through), returning both
  components of the Go result.
\<close>

type_synonym cipher = "string \<Rightarrow> string \<Rightarrow> string \<times> error option"
type_synonym decipher = "string \<Rightarrow> string \<Rightarrow> string \<times> error option"

text \<open>
  Modelled from the spec: the settings accessor of package \<^verbatim>\<open>setting\<close>, which is not
  part of the source file. \<^verbatim>\<open>KeyValue(section, key)\<close> is the configured string, if any,
  and \<^verbatim>\<open>MustString(default)\<close> falls back to the default when the key is unset.
\<close>

type_synonym settingsProvider = "string \<Rightarrow> string \<Rightarrow> string option"

definition MustString :: "string option \<Rightarrow> string \<Rightarrow> string" where
  "MustString kv defaultVal = (case kv of None \<Rightarrow> defaultVal | Some v \<Rightarrow> v)"

text \<open>
  Modelled from the spec: the constant \<^verbatim>\<open>encryption.AesCfb\<close> of package \<^verbatim>\<open>encryption\<close>,
  the identifier of the default algorithm.
\<close>

definition AesCfb :: string where
  "AesCfb = ''aes-cfb''"

definition encryptionAlgorithmDelimiter :: char where
  "encryptionAlgorithmDelimiter = CHR ''*''"

definition securitySection :: string where
  "securitySection = ''security.encryption''"

definition encryptionAlgorithmKey :: string where
  "encryptionAlgorithmKey = ''algorithm''"

definition defaultEncryptionAlgorithm :: string where
  "defaultEncryptionAlgorithm = AesCfb"

record Provider =
  ProvideCiphers :: "string \<rightharpoonup> cipher"
  ProvideDeciphers :: "string \<rightharpoonup> decipher"

record Service =
  settingsProvider :: settingsProvider
  ciphers :: "string \<rightharpoonup> cipher"
  deciphers :: "string \<rightharpoonup> decipher"

text \<open>
  What a call does besides returning is recorded as a list of events, in the order in
  which they happen: each invocation of a capability (with the identifier under which
  it is registered, the payload and the secret it receives), each error-level log entry
  (its message and its key/value context) and the two registrations made at
  construction.
\<close>

datatype logval = LStr string | LErr error

datatype event =
    is_CipherCall: CipherCall string string string
  | is_DecipherCall: DecipherCall string string string
  | is_LogError: LogError string "(string \<times> logval) list"
  | RegisterReloadHandler string
  | RegisterMetricsFunc

text \<open>The body of a deferred \<^verbatim>\<open>if err != nil { s.log.Error(msg, "error", err) }\<close>.\<close>

definition log_if_error :: "string \<Rightarrow> error option \<Rightarrow> event list" where
  "log_if_error msg err =
     (case err of None \<Rightarrow> [] | Some e \<Rightarrow> [LogError msg [(''error'', LErr e)]])"

definition checkEncryptionAlgorithm :: "Service \<Rightarrow> string \<Rightarrow> error option \<times> event list" where
  "checkEncryptionAlgorithm s algorithm =
     (let err =
        (if ciphers s algorithm = None
         then Some (errorString ''no cipher registered for encryption algorithm configured'')
         else if deciphers s algorithm = None
         then Some (errorString ''no cipher registered for encryption algorithm configured'')
         else None)
      in (err,
          case err of None \<Rightarrow> []
          | Some e \<Rightarrow> [LogError ''Wrong security encryption configuration''
                         [(''algorithm'', LStr algorithm), (''error'', LErr e)]]))"

text \<open>The metrics callback registered at construction.\<close>

definition usageMetrics :: "Service \<Rightarrow> (string \<times> nat) list \<times> error option" where
  "usageMetrics s =
     (let algorithm = MustString (settingsProvider s securitySection encryptionAlgorithmKey)
                        defaultEncryptionAlgorithm
      in ([(''stats.encryption.'' @ algorithm @ ''.count'', 1)], None))"

definition ProvideEncryptionService ::
  "Provider \<Rightarrow> settingsProvider \<Rightarrow> (Service option \<times> error option) \<times> event list" where
  "ProvideEncryptionService provider sp =
     (let s = \<lparr>settingsProvider = sp,
                ciphers = ProvideCiphers provider,
                deciphers = ProvideDeciphers provider\<rparr>;
          algorithm = MustString (settingsProvider s securitySection encryptionAlgorithmKey)
                        defaultEncryptionAlgorithm
      in case checkEncryptionAlgorithm s algorithm of
           (Some err, evs) \<Rightarrow> ((None, Some err), evs)
         | (None, evs) \<Rightarrow>
             ((Some s, None),
              evs @ [RegisterReloadHandler securitySection, RegisterMetricsFunc]))"

definition deriveEncryptionAlgorithm :: "string \<Rightarrow> string \<times> string \<times> error option" where
  "deriveEncryptionAlgorithm payload =
     (if length payload = 0
      then ([], [], Some (errorString ''unable to derive encryption algorithm''))
      else if payload ! 0 \<noteq> encryptionAlgorithmDelimiter
      then (AesCfb, payload, None)
      else
        (let payload1 = drop 1 payload;
             algorithmDelimiterIdx = bytes_Index payload1 [encryptionAlgorithmDelimiter]
         in if algorithmDelimiterIdx = -1
            then (AesCfb, payload1, None)
            else
              (let algorithmB64 = take (nat algorithmDelimiterIdx) payload1;
                   payload2 = drop (nat algorithmDelimiterIdx + 1) payload1;
                   algorithm = make_bytes (DecodedLen (length algorithmB64))
               in case Decode algorithm algorithmB64 of
                    (algorithm', n, Some err) \<Rightarrow> ([], [], Some err)
                  | (algorithm', n, None) \<Rightarrow> (algorithm', payload2, None))))"

definition Decrypt :: "Service \<Rightarrow> string \<Rightarrow> string \<Rightarrow> (string \<times> error option) \<times> event list" where
  "Decrypt s payload secret =
     (case deriveEncryptionAlgorithm payload of
        (algorithm, toDecrypt, Some err) \<Rightarrow>
          (([], Some err), log_if_error ''Decryption failed'' (Some err))
      | (algorithm, toDecrypt, None) \<Rightarrow>
          (case deciphers s algorithm of
             None \<Rightarrow>
               (let err = errorString (''no decipher available for algorithm '' @ quote algorithm)
                in (([], Some err), log_if_error ''Decryption failed'' (Some err)))
           | Some decipher \<Rightarrow>
               (case decipher toDecrypt secret of
                  (decrypted, err) \<Rightarrow>
                    ((decrypted, err),
                     DecipherCall algorithm toDecrypt secret
                       # log_if_error ''Decryption failed'' err))))"

text \<open>
  \<^verbatim>\<open>Encrypt\<close> stores the cipher's error in its local \<^verbatim>\<open>err\<close>, which the deferred
  function logs, builds the frame from whatever bytes the cipher returned, and ends
  with \<^verbatim>\<open>return ciphertext, nil\<close>.
\<close>

definition Encrypt :: "Service \<Rightarrow> string \<Rightarrow> string \<Rightarrow> (string \<times> error option) \<times> event list" where
  "Encrypt s payload secret =
     (let algorithm = MustString (settingsProvider s securitySection encryptionAlgorithmKey)
                        defaultEncryptionAlgorithm
      in case ciphers s algorithm of
           None \<Rightarrow>
             (let err = errorString (''no cipher available for algorithm '' @ quote algorithm)
              in (([], Some err), log_if_error ''Encryption failed'' (Some err)))
         | Some cipher \<Rightarrow>
             (case cipher payload secret of
                (encrypted, err) \<Rightarrow>
                  (let prefix0 = make_bytes (EncodedLen (length algorithm) + 2);
                       prefix1 = copy_at prefix0 1 (Encode algorithm);
                       prefix2 = prefix1[0 := encryptionAlgorithmDelimiter];
                       prefix3 = prefix2[length prefix2 - 1 := encryptionAlgorithmDelimiter];
                       ciphertext0 = make_bytes (length prefix3 + length encrypted);
                       ciphertext1 = copy_at ciphertext0 0 prefix3;
                       ciphertext2 = copy_at ciphertext1 (length prefix3) encrypted
                   in ((ciphertext2, None),
                       CipherCall algorithm payload secret
                         # log_if_error ''Encryption failed'' err))))"

text \<open>
  The batch helpers range over a Go map. The order in which \<^verbatim>\<open>range\<close> visits the
  entries is not specified, so the input is given as the list of its entries in the
  order in which they are visited (each key once); the result map is built by one
  update per entry, and a failure returns a nil map (\<^term>\<open>None\<close>) at once.
\<close>

fun EncryptJsonData_loop ::
  "Service \<Rightarrow> (string \<times> string) list \<Rightarrow> string \<Rightarrow> (string \<rightharpoonup> string)
     \<Rightarrow> ((string \<rightharpoonup> string) option \<times> error option) \<times> event list" where
  "EncryptJsonData_loop s [] secret encrypted = ((Some encrypted, None), [])"
| "EncryptJsonData_loop s ((key, val) # kv) secret encrypted =
     (case Encrypt s val secret of
        ((encryptedData, Some err), evs) \<Rightarrow> ((None, Some err), evs)
      | ((encryptedData, None), evs) \<Rightarrow>
          (case EncryptJsonData_loop s kv secret (encrypted(key \<mapsto> encryptedData)) of
             (r, evs') \<Rightarrow> (r, evs @ evs')))"

definition EncryptJsonData ::
  "Service \<Rightarrow> (string \<times> string) list \<Rightarrow> string
     \<Rightarrow> ((string \<rightharpoonup> string) option \<times> error option) \<times> event list" where
  "EncryptJsonData s kv secret = EncryptJsonData_loop s kv secret Map.empty"

fun DecryptJsonData_loop ::
  "Service \<Rightarrow> (string \<times> string) list \<Rightarrow> string \<Rightarrow> (string \<rightharpoonup> string)
     \<Rightarrow> ((string \<rightharpoonup> string) option \<times> error option) \<times> event list" where
  "DecryptJsonData_loop s [] secret decrypted = ((Some decrypted, None), [])"
| "DecryptJsonData_loop s ((key, data) # sjd) secret decrypted =
     (case Decrypt s data secret of
        ((decryptedData, Some err), evs) \<Rightarrow> ((None, Some err), evs)
      | ((decryptedData, None), evs) \<Rightarrow>
          (case DecryptJsonData_loop s sjd secret (decrypted(key \<mapsto> decryptedData)) of
             (r, evs') \<Rightarrow> (r, evs @ evs')))"

definition DecryptJsonData ::
  "Service \<Rightarrow> (string \<times> string) list \<Rightarrow> string
     \<Rightarrow> ((string \<rightharpoonup> string) option \<times> error option) \<times> event list" where
  "DecryptJsonData s sjd secret = DecryptJsonData_loop s sjd secret Map.empty"

definition GetDecryptedValue ::
  "Service \<Rightarrow> (string \<rightharpoonup> string) \<Rightarrow> string \<Rightarrow> string \<Rightarrow> string \<Rightarrow> string \<times> event list" where
  "GetDecryptedValue s sjd key fallback secret =
     (case sjd key of
        Some v \<Rightarrow>
          (case Decrypt s v secret of
             ((decryptedData, Some err), evs) \<Rightarrow> (fallback, evs)
           | ((decryptedData, None), evs) \<Rightarrow> (decryptedData, evs))
      | None \<Rightarrow> (fallback, []))"

text \<open>
  \<^verbatim>\<open>Validate\<close> receives the reloaded section, here the value of its \<^verbatim>\<open>algorithm\<close> key;
  \<^verbatim>\<open>Reload\<close> does nothing.
\<close>

definition Validate :: "Service \<Rightarrow> string option \<Rightarrow> error option \<times> event list" where
  "Validate s section =
     checkEncryptionAlgorithm s (MustString section defaultEncryptionAlgorithm)"

definition Reload :: "Service \<Rightarrow> string option \<Rightarrow> error option" where
  "Reload s section = None"

text \<open>The decipher invocations among the events of a call.\<close>

definition decipher_calls :: "event list \<Rightarrow> event list" where
  "decipher_calls evs = filter is_DecipherCall evs"

text \<open>
  \<^verbatim>\<open>err.Error()\<close>, the text of an error: the message itself, or for the decoder's error
  "illegal base64 data at input byte" followed by the offset in decimal.
\<close>

function decimal :: "nat \<Rightarrow> string" where
  "decimal n =
     (if n < 10 then [char_of (48 + n)]
      else decimal (n div 10) @ [char_of (48 + n mod 10)])"
  by pat_completeness auto
termination
  by (relation "measure id") auto

fun Error :: "error \<Rightarrow> string" where
  "Error (errorString msg) = msg"
| "Error (CorruptInputError n) = ''illegal base64 data at input byte '' @ decimal n"
| "Error (CapabilityError msg) = msg"

text \<open>\<^verbatim>\<open>strings.Contains(s, substr)\<close>.\<close>

definition strings_Contains :: "string \<Rightarrow> string \<Rightarrow> bool" where
  "strings_Contains s substr = sublist substr s"

section \<open>Example capabilities and services\<close>

text \<open>
  Small capabilities on which the theorems below are instantiated: a cipher that
  prepends the secret, the decipher that checks and strips it, and a cipher that always
  fails.
\<close>

definition toy_cipher :: cipher where
  "toy_cipher payload secret = (secret @ payload, None)"

definition toy_decipher :: decipher where
  "toy_decipher payload secret =
     (if take (length secret) payload = secret
      then (drop (length secret) payload, None)
      else ([], Some (CapabilityError ''wrong secret'')))"

definition failing_cipher :: cipher where
  "failing_cipher payload secret = ([], Some (CapabilityError ''cipher failed''))"

definition no_settings :: settingsProvider where
  "no_settings section key = None"

definition toy_provider :: Provider where
  "toy_provider =
     \<lparr>ProvideCiphers = [AesCfb \<mapsto> toy_cipher], ProvideDeciphers = [AesCfb \<mapsto> toy_decipher]\<rparr>"

definition empty_provider :: Provider where
  "empty_provider = \<lparr>ProvideCiphers = Map.empty, ProvideDeciphers = Map.empty\<rparr>"

definition toy_service :: Service where
  "toy_service =
     \<lparr>settingsProvider = no_settings,
      ciphers = [AesCfb \<mapsto> toy_cipher],
      deciphers = [AesCfb \<mapsto> toy_decipher]\<rparr>"

definition failing_service :: Service where
  "failing_service =
     \<lparr>settingsProvider = no_settings,
      ciphers = [AesCfb \<mapsto> failing_cipher],
      deciphers = [AesCfb \<mapsto> toy_decipher]\<rparr>"

section \<open>Decrypt: inputs that fail before any decipher runs\<close>

lemma deriveEncryptionAlgorithm_empty:
  "deriveEncryptionAlgorithm [] =
     ([], [], Some (errorString ''unable to derive encryption algorithm''))"
  by (simp add: deriveEncryptionAlgorithm_def)

text \<open>
  Claim C3. Decrypting a ciphertext of length zero fails with the error
  "unable to derive encryption algorithm" (the spec's EmptyInputError), whatever the
  service and the secret; the only event is the log entry, so no decipher is invoked.
\<close>

theorem Decrypt_empty_input:
  "Decrypt s [] secret =
     (([], Some (errorString ''unable to derive encryption algorithm'')),
      [LogError ''Decryption failed''
         [(''error'', LErr (errorString ''unable to derive encryption algorithm''))]])
   \<and> decipher_calls (snd (Decrypt s [] secret)) = []"
  by (simp add: Decrypt_def deriveEncryptionAlgorithm_empty log_if_error_def decipher_calls_def)

theorem Decrypt_empty_input_witness:
  "fst (Decrypt toy_service [] ''k'') =
     ([], Some (errorString ''unable to derive encryption algorithm''))
   \<and> decipher_calls (snd (Decrypt toy_service [] ''k'')) = []"
  using Decrypt_empty_input [of toy_service "''k''"] by (simp add: decipher_calls_def)

lemma deriveEncryptionAlgorithm_double_delimiter:
  "deriveEncryptionAlgorithm (CHR ''*'' # CHR ''*'' # rest) = ([], rest, None)"
  by (simp add: deriveEncryptionAlgorithm_def encryptionAlgorithmDelimiter_def Let_def
      DecodedLen_def Decode_def copy_at_def make_bytes_def)

text \<open>
  Claim C10. A ciphertext that begins with two delimiter bytes is parsed as a frame
  whose identifier is the empty string, with everything after the second delimiter as
  cipher output; it is not treated as a legacy payload. When the empty string has no
  registered decipher, Decrypt fails with "no decipher available for algorithm ''" and
  no decipher is invoked.
\<close>

theorem Decrypt_empty_identifier:
  "deciphers s [] = None \<Longrightarrow>
   deriveEncryptionAlgorithm (CHR ''*'' # CHR ''*'' # rest) = ([], rest, None)
   \<and> fst (Decrypt s (CHR ''*'' # CHR ''*'' # rest) secret) =
       ([], Some (errorString (''no decipher available for algorithm '' @ quote [])))
   \<and> decipher_calls (snd (Decrypt s (CHR ''*'' # CHR ''*'' # rest) secret)) = []"
  by (simp add: Decrypt_def deriveEncryptionAlgorithm_double_delimiter log_if_error_def
      decipher_calls_def Let_def)

theorem Decrypt_empty_identifier_witness:
  "deciphers toy_service [] = None
   \<and> deriveEncryptionAlgorithm ''**kpayload'' = ([], ''kpayload'', None)
   \<and> fst (Decrypt toy_service ''**kpayload'' ''k'') =
       ([], Some (errorString (''no decipher available for algorithm '' @ quote [])))
   \<and> decipher_calls (snd (Decrypt toy_service ''**kpayload'' ''k'')) = []"
proof -
  have h: "deciphers toy_service [] = None"
    by (simp add: toy_service_def AesCfb_def)
  show ?thesis
    using h Decrypt_empty_identifier [OF h, of "''kpayload''" "''k''"] by simp
qed

section \<open>The fallback helper\<close>

text \<open>
  Claim C7. GetDecryptedValue returns the fallback, with no event at all (so without
  any attempt to decrypt), when the key is absent; it returns the fallback when the key
  is present and Decrypt of its value reports an error (the result is a plain string,
  so the error does not reach the caller); and it returns the decrypted bytes when
  Decrypt reports no error.
\<close>

theorem GetDecryptedValue_cases:
  "(sjd key = None \<longrightarrow> GetDecryptedValue s sjd key fallback secret = (fallback, []))
   \<and> (\<forall>v e. sjd key = Some v \<and> snd (fst (Decrypt s v secret)) = Some e \<longrightarrow>
         fst (GetDecryptedValue s sjd key fallback secret) = fallback)
   \<and> (\<forall>v. sjd key = Some v \<and> snd (fst (Decrypt s v secret)) = None \<longrightarrow>
         fst (GetDecryptedValue s sjd key fallback secret) = fst (fst (Decrypt s v secret)))"
  by (auto simp: GetDecryptedValue_def split: prod.splits option.splits)

lemma Decrypt_toy_legacy:
  "Decrypt toy_service ''kpayload'' ''k'' =
     ((''payload'', None), [DecipherCall ''aes-cfb'' ''kpayload'' ''k''])"
  by (simp add: Decrypt_def deriveEncryptionAlgorithm_def encryptionAlgorithmDelimiter_def
      toy_service_def toy_decipher_def AesCfb_def log_if_error_def)

lemma Decrypt_toy_wrong_secret:
  "fst (Decrypt toy_service ''xpayload'' ''k'') = ([], Some (CapabilityError ''wrong secret''))"
  by (simp add: Decrypt_def deriveEncryptionAlgorithm_def encryptionAlgorithmDelimiter_def
      toy_service_def toy_decipher_def AesCfb_def log_if_error_def)

theorem GetDecryptedValue_cases_witness:
  "GetDecryptedValue toy_service [''a'' \<mapsto> ''kpayload''] ''b'' ''fallback'' ''k''
     = (''fallback'', [])
   \<and> fst (GetDecryptedValue toy_service [''a'' \<mapsto> ''xpayload''] ''a'' ''fallback'' ''k'')
     = ''fallback''
   \<and> fst (GetDecryptedValue toy_service [''a'' \<mapsto> ''kpayload''] ''a'' ''fallback'' ''k'')
     = ''payload''"
  using
    GetDecryptedValue_cases [of "[''a'' \<mapsto> ''kpayload'']" "''b''" toy_service "''fallback''" "''k''"]
    GetDecryptedValue_cases [of "[''a'' \<mapsto> ''xpayload'']" "''a''" toy_service "''fallback''" "''k''"]
    GetDecryptedValue_cases [of "[''a'' \<mapsto> ''kpayload'']" "''a''" toy_service "''fallback''" "''k''"]
  by (simp add: Decrypt_toy_legacy Decrypt_toy_wrong_secret)

section \<open>Encrypt: the frame\<close>

lemma copy_at_frame: "copy_at (make_bytes (length e + 2)) 1 e = CHR 0x00 # e @ [CHR 0x00]"
proof -
  have t: "take 1 (replicate (length e + 2) (CHR 0x00)) = [CHR 0x00]"
    by (simp add: take_Suc_conv_app_nth)
  have d: "drop (1 + length e) (replicate (length e + 2) (CHR 0x00)) = replicate 1 (CHR 0x00)"
    by (simp only: drop_replicate) simp
  show ?thesis
    unfolding copy_at_def make_bytes_def t d by simp
qed

lemma copy_at_concat:
  "copy_at (copy_at (make_bytes (length p + length e)) 0 p) (length p) e = p @ e"
  by (simp add: copy_at_def make_bytes_def)

lemma EncodedLen_Suc3: "EncodedLen (Suc (Suc (Suc n))) = 4 + EncodedLen n"
proof -
  have "Suc (Suc (Suc n)) div 3 = Suc (n div 3)" by simp
  moreover have "Suc (Suc (Suc n)) mod 3 = n mod 3" by simp
  ultimately show ?thesis unfolding EncodedLen_def by simp
qed

text \<open>\<^verbatim>\<open>Encode\<close> fills exactly the \<^verbatim>\<open>EncodedLen\<close> bytes that \<^verbatim>\<open>Encrypt\<close> reserves for it.\<close>

lemma length_Encode: "length (Encode a) = EncodedLen (length a)"
proof (induction a rule: Encode.induct)
  case (1 a b c rest)
  then show ?case
    by (simp add: Let_def EncodedLen_Suc3 del: Encode.simps(1)) (simp add: Let_def)
qed (simp_all add: EncodedLen_def Let_def)

text \<open>
  With a cipher registered for the configured algorithm, the buffer operations of
  \<^verbatim>\<open>Encrypt\<close> amount to: delimiter, base64 of the identifier, delimiter, then the bytes
  the cipher returned; the returned error is nil, and the cipher's own error only
  reaches the log.
\<close>

lemma Encrypt_frame:
  assumes "ciphers s (MustString (settingsProvider s securitySection encryptionAlgorithmKey)
                        defaultEncryptionAlgorithm) = Some c"
  shows "Encrypt s payload secret =
     ((encryptionAlgorithmDelimiter
         # Encode (MustString (settingsProvider s securitySection encryptionAlgorithmKey)
                        defaultEncryptionAlgorithm)
         @ encryptionAlgorithmDelimiter # fst (c payload secret), None),
      CipherCall (MustString (settingsProvider s securitySection encryptionAlgorithmKey)
                        defaultEncryptionAlgorithm) payload secret
        # log_if_error ''Encryption failed'' (snd (c payload secret)))"
proof -
  define alg where "alg = MustString (settingsProvider s securitySection encryptionAlgorithmKey)
                        defaultEncryptionAlgorithm"
  define d where "d = encryptionAlgorithmDelimiter"
  obtain encrypted err where c: "c payload secret = (encrypted, err)"
    by (cases "c payload secret")
  have p: "((copy_at (make_bytes (EncodedLen (length alg) + 2)) 1 (Encode alg))[0 := d])
             [length ((copy_at (make_bytes (EncodedLen (length alg) + 2)) 1 (Encode alg))[0 := d]) - 1 := d]
           = d # Encode alg @ [d]"
    unfolding length_Encode [symmetric] copy_at_frame by (simp add: list_update_append)
  have q: "copy_at (copy_at (make_bytes (length (d # Encode alg @ [d]) + length encrypted)) 0
                      (d # Encode alg @ [d])) (length (d # Encode alg @ [d])) encrypted
           = (d # Encode alg @ [d]) @ encrypted"
    by (rule copy_at_concat)
  show ?thesis
    using assms unfolding Encrypt_def Let_def alg_def [symmetric] d_def [symmetric]
    by (simp only: option.case c prod.case p q fst_conv snd_conv) simp
qed

lemma Encode_AesCfb: "Encode ''aes-cfb'' = ''YWVzLWNmYg''"
  by (simp add: encode_char_def encodeStd_def)

lemma toy_service_configured:
  "MustString (settingsProvider toy_service securitySection encryptionAlgorithmKey)
     defaultEncryptionAlgorithm = ''aes-cfb''"
  by (simp add: toy_service_def no_settings_def MustString_def defaultEncryptionAlgorithm_def
      AesCfb_def)

text \<open>
  Claim C8. When the configured algorithm is "aes-cfb" and its cipher returns bytes and
  no error, the output of Encrypt is exactly the twelve bytes *YWVzLWNmYg* (the
  delimiter 0x2A, the unpadded base64 of "aes-cfb", the delimiter) followed by the
  cipher's bytes, with a nil error.
\<close>

theorem Encrypt_aes_cfb_wire_format:
  assumes "MustString (settingsProvider s securitySection encryptionAlgorithmKey)
             defaultEncryptionAlgorithm = ''aes-cfb''"
    and "ciphers s ''aes-cfb'' = Some c"
    and "c payload secret = (encrypted, None)"
  shows "fst (Encrypt s payload secret) =
           ([CHR 0x2A] @ ''YWVzLWNmYg'' @ [CHR 0x2A] @ encrypted, None)
         \<and> take 12 (fst (fst (Encrypt s payload secret))) = ''*YWVzLWNmYg*''
         \<and> drop 12 (fst (fst (Encrypt s payload secret))) = encrypted"
proof -
  have "ciphers s (MustString (settingsProvider s securitySection encryptionAlgorithmKey)
                     defaultEncryptionAlgorithm) = Some c"
    using assms(1,2) by simp
  note f = Encrypt_frame [OF this, of payload secret, unfolded assms(1) Encode_AesCfb assms(3)]
  show ?thesis
    by (simp add: f encryptionAlgorithmDelimiter_def)
qed

theorem Encrypt_aes_cfb_wire_format_witness:
  "MustString (settingsProvider toy_service securitySection encryptionAlgorithmKey)
     defaultEncryptionAlgorithm = ''aes-cfb''
   \<and> ciphers toy_service ''aes-cfb'' = Some toy_cipher
   \<and> toy_cipher ''hello'' ''k'' = (''khello'', None)
   \<and> fst (Encrypt toy_service ''hello'' ''k'') = (''*YWVzLWNmYg*khello'', None)"
proof -
  have c: "ciphers toy_service ''aes-cfb'' = Some toy_cipher"
    by (simp add: toy_service_def AesCfb_def)
  have r: "toy_cipher ''hello'' ''k'' = (''khello'', None)"
    by (simp add: toy_cipher_def)
  show ?thesis
    using Encrypt_aes_cfb_wire_format [OF toy_service_configured c r] toy_service_configured c r
    by simp
qed

text \<open>
  Claim C2 says that a failure of the cipher is returned by Encrypt as a non-nil error.
  The code does not do that: on the service whose "aes-cfb" cipher always fails,
  Encrypt logs "Encryption failed" with the cipher's error and returns the bare frame
  together with a nil error.
\<close>

theorem Encrypt_cipher_failure_returns_nil_error:
  "failing_cipher ''payload'' ''k'' = ([], Some (CapabilityError ''cipher failed''))
   \<and> Encrypt failing_service ''payload'' ''k'' =
     ((''*YWVzLWNmYg*'', None),
      [CipherCall ''aes-cfb'' ''payload'' ''k'',
       LogError ''Encryption failed'' [(''error'', LErr (CapabilityError ''cipher failed''))]])"
  by (simp add: Encrypt_def failing_service_def no_settings_def MustString_def
      defaultEncryptionAlgorithm_def AesCfb_def failing_cipher_def Let_def EncodedLen_def
      make_bytes_def copy_at_def encode_char_def encodeStd_def encryptionAlgorithmDelimiter_def
      log_if_error_def)

section \<open>Construction\<close>

text \<open>
  Claim C6, as stated, has the construction error name the missing algorithm. With no
  capability registered and nothing configured, the algorithm is the default "aes-cfb",
  construction fails, and the text of the returned error does not contain "aes-cfb".
\<close>

theorem ProvideEncryptionService_error_names_algorithm_counterexample:
  "MustString (no_settings securitySection encryptionAlgorithmKey) defaultEncryptionAlgorithm
     = ''aes-cfb''
   \<and> snd (fst (ProvideEncryptionService empty_provider no_settings)) =
       Some (errorString ''no cipher registered for encryption algorithm configured'')
   \<and> \<not> strings_Contains
         (Error (errorString ''no cipher registered for encryption algorithm configured''))
         ''aes-cfb''"
  by (simp add: ProvideEncryptionService_def empty_provider_def no_settings_def MustString_def
      defaultEncryptionAlgorithm_def AesCfb_def checkEncryptionAlgorithm_def
      strings_Contains_def sublist_Cons_right)

text \<open>
  Claim C6, amended. Whenever the configured algorithm lacks a registered cipher or a
  registered decipher, construction returns no service and the fixed error
  "no cipher registered for encryption algorithm configured"; the algorithm is named in
  the error log entry written on the way, and nothing is registered.
\<close>

theorem ProvideEncryptionService_missing_algorithm:
  "ProvideCiphers provider
      (MustString (sp securitySection encryptionAlgorithmKey) defaultEncryptionAlgorithm) = None
   \<or> ProvideDeciphers provider
      (MustString (sp securitySection encryptionAlgorithmKey) defaultEncryptionAlgorithm) = None
   \<Longrightarrow>
   ProvideEncryptionService provider sp =
     ((None, Some (errorString ''no cipher registered for encryption algorithm configured'')),
      [LogError ''Wrong security encryption configuration''
         [(''algorithm'',
           LStr (MustString (sp securitySection encryptionAlgorithmKey) defaultEncryptionAlgorithm)),
          (''error'',
           LErr (errorString ''no cipher registered for encryption algorithm configured''))]])"
  by (auto simp: ProvideEncryptionService_def checkEncryptionAlgorithm_def Let_def)

theorem ProvideEncryptionService_missing_algorithm_witness:
  "ProvideCiphers empty_provider
      (MustString (no_settings securitySection encryptionAlgorithmKey) defaultEncryptionAlgorithm)
     = None
   \<and> ProvideEncryptionService empty_provider no_settings =
     ((None, Some (errorString ''no cipher registered for encryption algorithm configured'')),
      [LogError ''Wrong security encryption configuration''
         [(''algorithm'', LStr ''aes-cfb''),
          (''error'',
           LErr (errorString ''no cipher registered for encryption algorithm configured''))]])"
proof -
  have h: "ProvideCiphers empty_provider
      (MustString (no_settings securitySection encryptionAlgorithmKey) defaultEncryptionAlgorithm)
     = None"
    by (simp add: empty_provider_def)
  have a: "MustString (no_settings securitySection encryptionAlgorithmKey)
             defaultEncryptionAlgorithm = ''aes-cfb''"
    by (simp add: no_settings_def MustString_def defaultEncryptionAlgorithm_def AesCfb_def)
  show ?thesis
    using h ProvideEncryptionService_missing_algorithm [of empty_provider no_settings, OF disjI1 [OF h]]
    by (simp add: a)
qed

section \<open>Base64: decoding what was encoded\<close>

lemma EncodedLen_split: "r < 3 \<Longrightarrow> EncodedLen (3 * q + r) = 4 * q + (r * 8 + 5) div 6"
  by (simp add: EncodedLen_def)

lemma DecodedLen_split: "e < 4 \<Longrightarrow> DecodedLen (4 * q + e) = 3 * q + e * 6 div 8"
  by (simp add: DecodedLen_def)

lemma DecodedLen_EncodedLen: "DecodedLen (EncodedLen n) = n"
proof -
  define q where "q = n div 3"
  define r where "r = n mod 3"
  have n: "n = 3 * q + r" by (simp add: q_def r_def)
  have r: "r < 3" by (simp add: r_def)
  then consider "r = 0" | "r = 1" | "r = 2" by linarith
  then have "(r * 8 + 5) div 6 < 4 \<and> (r * 8 + 5) div 6 * 6 div 8 = r"
    by cases simp_all
  then show ?thesis
    unfolding n EncodedLen_split [OF r] by (simp add: DecodedLen_split)
qed

lemma sextets:
  fixes v :: nat
  assumes "v < 16777216"
  shows "(v div 262144 mod 64) * 262144 + (v div 4096 mod 64) * 4096 + (v div 64 mod 64) * 64
           + v mod 64 = v"
proof -
  define A where "A = v div 262144"
  define B where "B = v div 4096 mod 64"
  define C where "C = v div 64 mod 64"
  define D where "D = v mod 64"
  define a where "a = v div 64"
  define b where "b = v div 4096"
  have e1: "v = a * 64 + D" by (simp add: a_def D_def)
  have "a div 64 = b" by (simp add: a_def b_def div_mult2_eq)
  then have e2: "a = b * 64 + C" unfolding C_def a_def [symmetric]
    using div_mult_mod_eq [of a 64] by simp
  have "b div 64 = A" by (simp add: A_def b_def div_mult2_eq)
  then have e3: "b = A * 64 + B" unfolding B_def b_def [symmetric]
    using div_mult_mod_eq [of b 64] by simp
  have "A < 64" using assms by (simp add: A_def div_less_iff_less_mult)
  then have e4: "v div 262144 mod 64 = A" by (simp add: A_def)
  have "A * 262144 + B * 4096 + C * 64 + D = v"
    using e1 e2 e3 by simp
  then show ?thesis unfolding e4 B_def C_def D_def .
qed

lemma quantum_three_bytes:
  fixes x y z :: nat
  assumes x: "x < 256" and y: "y < 256" and z: "z < 256"
  defines "v \<equiv> x * 65536 + y * 256 + z"
  shows "quantum [v div 262144 mod 64, v div 4096 mod 64, v div 64 mod 64, v mod 64]
           = [char_of x, char_of y, char_of z]"
proof -
  define w where "w = x * 256 + y"
  define l where "l = y * 256 + z"
  have v: "v < 16777216" using x y z by (simp add: v_def)
  have low: "l < 65536" using y z by (simp add: l_def)
  have "v = x * 65536 + l" by (simp add: v_def l_def)
  then have d1: "v div 65536 = x" using low by simp
  have "v = w * 256 + z" by (simp add: v_def w_def)
  then have d2: "v div 256 = w" and d3: "v mod 256 = z" using z by simp_all
  have c2: "char_of (v div 256) = char_of y" unfolding d2 w_def by simp
  have c3: "char_of v = char_of z" using d3 by (metis char_of_mod_256)
  show ?thesis
    unfolding quantum.simps Let_def sextets [OF v] d1 c2 c3 ..
qed

lemma quantum_two_bytes:
  fixes x y :: nat
  assumes x: "x < 256" and y: "y < 256"
  defines "v \<equiv> x * 65536 + y * 256"
  shows "quantum [v div 262144 mod 64, v div 4096 mod 64, v div 64 mod 64]
           = [char_of x, char_of y]"
proof -
  define w where "w = x * 256 + y"
  define u where "u = x * 1024 + y * 4"
  define l where "l = y * 256"
  have v: "v < 16777216" using x y by (simp add: v_def)
  have "v = u * 64" by (simp add: v_def u_def)
  then have m: "v mod 64 = 0" by simp
  have s: "(v div 262144 mod 64) * 262144 + (v div 4096 mod 64) * 4096 + (v div 64 mod 64) * 64 = v"
    using sextets [OF v] unfolding m by (simp only: add_0_right)
  have low: "l < 65536" using y by (simp add: l_def)
  have "v = x * 65536 + l" by (simp add: v_def l_def)
  then have d1: "v div 65536 = x" using low by simp
  have "v = w * 256" by (simp add: v_def w_def)
  then have d2: "v div 256 = w" by simp
  have c2: "char_of (v div 256) = char_of y" unfolding d2 w_def by simp
  show ?thesis
    unfolding quantum.simps Let_def s d1 c2 ..
qed

lemma quantum_one_byte:
  fixes x :: nat
  assumes x: "x < 256"
  defines "v \<equiv> x * 65536"
  shows "quantum [v div 262144 mod 64, v div 4096 mod 64] = [char_of x]"
proof -
  define u where "u = x * 1024"
  define t where "t = x * 16"
  have v: "v < 16777216" using x by (simp add: v_def)
  have "v = u * 64" by (simp add: v_def u_def)
  then have m: "v mod 64 = 0" and u: "v div 64 = u" by simp_all
  have "u = t * 64" by (simp add: u_def t_def)
  then have "u mod 64 = 0" by simp
  then have m2: "v div 64 mod 64 = 0" unfolding u .
  have s: "(v div 262144 mod 64) * 262144 + (v div 4096 mod 64) * 4096 = v"
    using sextets [OF v] unfolding m m2 by (simp only: add_0_right mult_0)
  have d1: "v div 65536 = x" by (simp add: v_def)
  show ?thesis
    unfolding quantum.simps Let_def s d1 ..
qed

lemma length_encodeStd: "length encodeStd = 64"
  by (simp add: encodeStd_def)

lemma distinct_encodeStd: "distinct encodeStd"
  by (simp add: encodeStd_def)

lemma index_of_nth: "distinct xs \<Longrightarrow> i < length xs \<Longrightarrow> index_of (xs ! i) xs = Some i"
proof (induction xs arbitrary: i)
  case Nil
  then show ?case by simp
next
  case (Cons x xs)
  show ?case
  proof (cases i)
    case 0
    then show ?thesis by simp
  next
    case (Suc j)
    with Cons.prems have "xs ! j \<noteq> x" "index_of (xs ! j) xs = Some j"
      using Cons.IH by auto
    with Suc show ?thesis by simp
  qed
qed

lemma decodeMap_encode_char: "decodeMap (encode_char v) = v mod 64"
  by (simp add: decodeMap_def encode_char_def index_of_nth distinct_encodeStd length_encodeStd)

lemma decodeMap_encode_char_valid: "decodeMap (encode_char v) \<noteq> 255"
proof -
  have "v mod 64 < 64" by simp
  then show ?thesis unfolding decodeMap_encode_char by linarith
qed

lemma encode_char_in_alphabet: "encode_char v \<in> set encodeStd"
  by (simp add: encode_char_def length_encodeStd)

lemma delimiter_not_in_alphabet: "encryptionAlgorithmDelimiter \<notin> set encodeStd"
  by (simp add: encodeStd_def encryptionAlgorithmDelimiter_def)

lemma Encode_in_alphabet: "set (Encode a) \<subseteq> set encodeStd"
  by (induction a rule: Encode.induct) (simp_all add: Let_def encode_char_in_alphabet)

lemma delimiter_not_in_Encode: "encryptionAlgorithmDelimiter \<notin> set (Encode a)"
  using Encode_in_alphabet delimiter_not_in_alphabet by blast

lemma sextet_valid: "(v :: nat) mod 64 \<noteq> 255"
proof -
  have "v mod 64 < 64" by simp
  then show ?thesis by linarith
qed

lemma decode_collect:
  "length dbuf < 3 \<Longrightarrow>
   decode dbuf si (encode_char v # cs) = decode (dbuf @ [v mod 64]) (si + 1) cs"
  by (simp add: decodeMap_encode_char sextet_valid Let_def)

lemma decode_complete:
  "length dbuf = 3 \<Longrightarrow>
   decode dbuf si (encode_char v # cs) =
     (case decode [] (si + 1) cs of (bs, err) \<Rightarrow> (quantum (dbuf @ [v mod 64]) @ bs, err))"
  by (simp add: decodeMap_encode_char sextet_valid Let_def)

lemma decode_group:
  "decode [] si (encode_char v0 # encode_char v1 # encode_char v2 # encode_char v3 # cs) =
     (case decode [] (Suc (Suc (Suc (Suc si)))) cs of
        (bs, err) \<Rightarrow> (quantum [v0 mod 64, v1 mod 64, v2 mod 64, v3 mod 64] @ bs, err))"
  by (simp add: decode_collect decode_complete del: decode.simps quantum.simps)

lemma decode_Encode: "decode [] si (Encode a) = (a, None)"
proof (induction a arbitrary: si rule: Encode.induct)
  case (1 a b c rest)
  define v where "v = (of_char a * 65536 + of_char b * 256 + of_char c :: nat)"
  have q: "quantum [v div 262144 mod 64, v div 4096 mod 64, v div 64 mod 64, v mod 64] = [a, b, c]"
    unfolding v_def using quantum_three_bytes [of "of_char a" "of_char b" "of_char c"] by simp
  have "Encode (a # b # c # rest) =
          encode_char (v div 262144) # encode_char (v div 4096) # encode_char (v div 64)
            # encode_char v # Encode rest"
    unfolding v_def Encode.simps Let_def by simp
  then show ?case
    by (simp only: decode_group "1.IH" prod.case q) simp
next
  case (2 a b)
  define v where "v = (of_char a * 65536 + of_char b * 256 :: nat)"
  have q: "quantum [v div 262144 mod 64, v div 4096 mod 64, v div 64 mod 64] = [a, b]"
    unfolding v_def using quantum_two_bytes [of "of_char a" "of_char b"] by simp
  have e: "Encode [a, b] =
          [encode_char (v div 262144), encode_char (v div 4096), encode_char (v div 64)]"
    unfolding v_def Encode.simps Let_def by simp
  have "decode [] si [encode_char (v div 262144), encode_char (v div 4096), encode_char (v div 64)]
          = (quantum [v div 262144 mod 64, v div 4096 mod 64, v div 64 mod 64], None)"
    by (simp add: decode_collect del: decode.simps(2) quantum.simps)
  then show ?case unfolding e q .
next
  case (3 a)
  define v where "v = (of_char a * 65536 :: nat)"
  have q: "quantum [v div 262144 mod 64, v div 4096 mod 64] = [a]"
    unfolding v_def using quantum_one_byte [of "of_char a"] by simp
  have e: "Encode [a] = [encode_char (v div 262144), encode_char (v div 4096)]"
    unfolding v_def Encode.simps Let_def by simp
  have "decode [] si [encode_char (v div 262144), encode_char (v div 4096)]
          = (quantum [v div 262144 mod 64, v div 4096 mod 64], None)"
    by (simp add: decode_collect del: decode.simps(2) quantum.simps)
  then show ?case unfolding e q .
next
  case 4
  show ?case by simp
qed

lemma Decode_Encode:
  "Decode (make_bytes (DecodedLen (length (Encode a)))) (Encode a) = (a, length a, None)"
  by (simp add: Decode_def decode_Encode length_Encode DecodedLen_EncodedLen copy_at_def
      make_bytes_def)

section \<open>Decrypt: parsing the frame\<close>

lemma bytes_Index_absent: "d \<notin> set xs \<Longrightarrow> bytes_Index xs [d] = -1"
  by (induction xs) (auto simp: Let_def)

lemma bytes_Index_first: "d \<notin> set xs \<Longrightarrow> bytes_Index (xs @ d # ys) [d] = int (length xs)"
  by (induction xs) (auto simp: Let_def)

lemma deriveEncryptionAlgorithm_legacy:
  "payload \<noteq> [] \<Longrightarrow> payload ! 0 \<noteq> encryptionAlgorithmDelimiter \<Longrightarrow>
   deriveEncryptionAlgorithm payload = (AesCfb, payload, None)"
  by (simp add: deriveEncryptionAlgorithm_def)

lemma deriveEncryptionAlgorithm_single_delimiter:
  "encryptionAlgorithmDelimiter \<notin> set rest \<Longrightarrow>
   deriveEncryptionAlgorithm (encryptionAlgorithmDelimiter # rest) = (AesCfb, rest, None)"
  by (simp add: deriveEncryptionAlgorithm_def bytes_Index_absent Let_def)

lemma deriveEncryptionAlgorithm_frame:
  assumes "encryptionAlgorithmDelimiter \<notin> set b64"
  shows "deriveEncryptionAlgorithm
           (encryptionAlgorithmDelimiter # b64 @ encryptionAlgorithmDelimiter # rest) =
         (case Decode (make_bytes (DecodedLen (length b64))) b64 of
            (algorithm, n, Some err) \<Rightarrow> ([], [], Some err)
          | (algorithm, n, None) \<Rightarrow> (algorithm, rest, None))"
  by (simp add: deriveEncryptionAlgorithm_def bytes_Index_first [OF assms] Let_def)

lemma Decrypt_with_decipher:
  "deriveEncryptionAlgorithm payload = (algorithm, toDecrypt, None) \<Longrightarrow>
   deciphers s algorithm = Some d \<Longrightarrow>
   Decrypt s payload secret =
     (d toDecrypt secret,
      DecipherCall algorithm toDecrypt secret
        # log_if_error ''Decryption failed'' (snd (d toDecrypt secret)))"
  by (cases "d toDecrypt secret") (simp add: Decrypt_def)

lemma Decrypt_without_decipher:
  "deriveEncryptionAlgorithm payload = (algorithm, toDecrypt, None) \<Longrightarrow>
   deciphers s algorithm = None \<Longrightarrow>
   Decrypt s payload secret =
     (([], Some (errorString (''no decipher available for algorithm '' @ quote algorithm))),
      [LogError ''Decryption failed''
         [(''error'',
           LErr (errorString (''no decipher available for algorithm '' @ quote algorithm)))]])"
  by (simp add: Decrypt_def Let_def log_if_error_def)

lemma decode_ok_no_delimiter:
  "snd (decode dbuf si src) = None \<Longrightarrow> encryptionAlgorithmDelimiter \<notin> set src"
proof (induction src arbitrary: dbuf si)
  case Nil
  then show ?case by simp
next
  case (Cons c cs)
  have star: "decodeMap encryptionAlgorithmDelimiter = 255"
    by (simp add: decodeMap_def encodeStd_def encryptionAlgorithmDelimiter_def)
  show ?case
  proof (cases "c = encryptionAlgorithmDelimiter")
    case True
    with Cons.prems star show ?thesis
      by (simp add: encryptionAlgorithmDelimiter_def)
  next
    case False
    from Cons.prems have "\<exists>dbuf' si'. snd (decode dbuf' si' cs) = None"
      by (auto simp: Let_def split: if_splits prod.splits) (metis snd_conv)
    with Cons.IH False show ?thesis by auto
  qed
qed

lemma decipher_calls_single:
  "decipher_calls (DecipherCall a p k # log_if_error msg err) = [DecipherCall a p k]"
  by (cases err) (simp_all add: decipher_calls_def log_if_error_def)

text \<open>
  Claim C4. With a decipher registered for the default algorithm "aes-cfb": a non-empty
  ciphertext whose first byte is not the delimiter is handed to that decipher whole and
  unchanged, and a ciphertext that starts with the delimiter and contains no second one
  is handed to it with only the leading delimiter removed. In both cases this is the
  only decipher invocation and its result is what Decrypt returns.
\<close>

theorem Decrypt_legacy_fallback:
  assumes "deciphers s AesCfb = Some d"
  shows "AesCfb = ''aes-cfb''
    \<and> (payload \<noteq> [] \<and> payload ! 0 \<noteq> CHR ''*'' \<longrightarrow>
         fst (Decrypt s payload secret) = d payload secret
         \<and> decipher_calls (snd (Decrypt s payload secret))
             = [DecipherCall ''aes-cfb'' payload secret])
    \<and> (CHR ''*'' \<notin> set rest \<longrightarrow>
         fst (Decrypt s (CHR ''*'' # rest) secret) = d rest secret
         \<and> decipher_calls (snd (Decrypt s (CHR ''*'' # rest) secret))
             = [DecipherCall ''aes-cfb'' rest secret])"
proof (intro conjI impI)
  show "AesCfb = ''aes-cfb''" by (simp add: AesCfb_def)
next
  assume "payload \<noteq> [] \<and> payload ! 0 \<noteq> CHR ''*''"
  then have "deriveEncryptionAlgorithm payload = (AesCfb, payload, None)"
    by (simp add: deriveEncryptionAlgorithm_legacy encryptionAlgorithmDelimiter_def)
  note r = Decrypt_with_decipher [OF this assms, of secret]
  show "fst (Decrypt s payload secret) = d payload secret"
    by (simp add: r)
  show "decipher_calls (snd (Decrypt s payload secret)) = [DecipherCall ''aes-cfb'' payload secret]"
    by (simp add: r decipher_calls_single AesCfb_def)
next
  assume "CHR ''*'' \<notin> set rest"
  then have "deriveEncryptionAlgorithm (CHR ''*'' # rest) = (AesCfb, rest, None)"
    using deriveEncryptionAlgorithm_single_delimiter [of rest]
    by (simp add: encryptionAlgorithmDelimiter_def)
  note r = Decrypt_with_decipher [OF this assms, of secret]
  show "fst (Decrypt s (CHR ''*'' # rest) secret) = d rest secret"
    by (simp add: r)
  show "decipher_calls (snd (Decrypt s (CHR ''*'' # rest) secret))
          = [DecipherCall ''aes-cfb'' rest secret]"
    by (simp add: r decipher_calls_single AesCfb_def)
qed

theorem Decrypt_legacy_fallback_witness:
  "deciphers toy_service AesCfb = Some toy_decipher
   \<and> ''kpayload'' \<noteq> [] \<and> ''kpayload'' ! 0 \<noteq> CHR ''*''
   \<and> fst (Decrypt toy_service ''kpayload'' ''k'') = (''payload'', None)
   \<and> decipher_calls (snd (Decrypt toy_service ''kpayload'' ''k''))
       = [DecipherCall ''aes-cfb'' ''kpayload'' ''k'']
   \<and> CHR ''*'' \<notin> set ''kpayload''
   \<and> fst (Decrypt toy_service ''*kpayload'' ''k'') = (''payload'', None)
   \<and> decipher_calls (snd (Decrypt toy_service ''*kpayload'' ''k''))
       = [DecipherCall ''aes-cfb'' ''kpayload'' ''k'']"
proof -
  have h: "deciphers toy_service AesCfb = Some toy_decipher"
    by (simp add: toy_service_def)
  have t: "toy_decipher ''kpayload'' ''k'' = (''payload'', None)"
    by (simp add: toy_decipher_def)
  show ?thesis
    using h Decrypt_legacy_fallback [OF h, of "''kpayload''" "''k''" "''kpayload''"]
    by (simp add: t)
qed

text \<open>
  Claim C5. For a frame whose base64 segment the decoder accepts, giving the identifier
  \<open>alg\<close>, and a service with no decipher registered for \<open>alg\<close>: Decrypt recovers
  \<open>alg\<close> and the bytes after the second delimiter, fails with
  "no decipher available for algorithm 'alg'", and invokes no decipher. (An accepted
  segment cannot contain the delimiter, so the segment ends at the second delimiter of
  the frame.)
\<close>

theorem Decrypt_unregistered_algorithm:
  assumes "Decode (make_bytes (DecodedLen (length b64))) b64 = (alg, n, None)"
    and "deciphers s alg = None"
  shows "deriveEncryptionAlgorithm (CHR ''*'' # b64 @ CHR ''*'' # rest) = (alg, rest, None)
    \<and> fst (Decrypt s (CHR ''*'' # b64 @ CHR ''*'' # rest) secret) =
        ([], Some (errorString (''no decipher available for algorithm '' @ quote alg)))
    \<and> decipher_calls (snd (Decrypt s (CHR ''*'' # b64 @ CHR ''*'' # rest) secret)) = []"
proof -
  have "snd (decode [] 0 b64) = None"
    using assms(1) by (simp add: Decode_def split: prod.splits)
  then have "encryptionAlgorithmDelimiter \<notin> set b64"
    by (rule decode_ok_no_delimiter)
  from deriveEncryptionAlgorithm_frame [OF this, of rest]
  have d: "deriveEncryptionAlgorithm (CHR ''*'' # b64 @ CHR ''*'' # rest) = (alg, rest, None)"
    by (simp add: assms(1) encryptionAlgorithmDelimiter_def)
  note r = Decrypt_without_decipher [OF d assms(2), of secret]
  show ?thesis
    by (simp add: d r decipher_calls_def)
qed

lemma Encode_aes_gcm: "Encode ''aes-gcm'' = ''YWVzLWdjbQ''"
  by (simp add: encode_char_def encodeStd_def)

theorem Decrypt_unregistered_algorithm_witness:
  "Decode (make_bytes (DecodedLen (length ''YWVzLWdjbQ''))) ''YWVzLWdjbQ'' = (''aes-gcm'', 7, None)
   \<and> deciphers toy_service ''aes-gcm'' = None
   \<and> deriveEncryptionAlgorithm ''*YWVzLWdjbQ*kpayload'' = (''aes-gcm'', ''kpayload'', None)
   \<and> fst (Decrypt toy_service ''*YWVzLWdjbQ*kpayload'' ''k'') =
       ([], Some (errorString (''no decipher available for algorithm '' @ quote ''aes-gcm'')))
   \<and> decipher_calls (snd (Decrypt toy_service ''*YWVzLWdjbQ*kpayload'' ''k'')) = []"
proof -
  have a: "Decode (make_bytes (DecodedLen (length ''YWVzLWdjbQ''))) ''YWVzLWdjbQ''
             = (''aes-gcm'', 7, None)"
    using Decode_Encode [of "''aes-gcm''"] unfolding Encode_aes_gcm by simp
  have b: "deciphers toy_service ''aes-gcm'' = None"
    by (simp add: toy_service_def AesCfb_def)
  show ?thesis
    using a b Decrypt_unregistered_algorithm [OF a b, of "''kpayload''" "''k''"] by simp
qed

section \<open>Round trip\<close>

text \<open>
  Claim C1. Let \<open>a\<close> be the configured algorithm, with cipher \<open>c\<close> and decipher \<open>d\<close>
  registered for it, and let \<open>d\<close> undo \<open>c\<close> on payload \<open>p\<close> under secret \<open>k\<close>. Then the
  base64 segment written by Encrypt contains no delimiter, Decrypt parses the output of
  Encrypt back to \<open>a\<close> and to the bytes the cipher returned, and it returns \<open>p\<close> with
  no error.
\<close>

theorem Decrypt_Encrypt_roundtrip:
  assumes "a = MustString (settingsProvider s securitySection encryptionAlgorithmKey)
                 defaultEncryptionAlgorithm"
    and "ciphers s a = Some c"
    and "deciphers s a = Some d"
    and "d (fst (c p k)) k = (p, None)"
  shows "encryptionAlgorithmDelimiter \<notin> set (Encode a)
    \<and> deriveEncryptionAlgorithm (fst (fst (Encrypt s p k))) = (a, fst (c p k), None)
    \<and> fst (Decrypt s (fst (fst (Encrypt s p k))) k) = (p, None)"
proof -
  have e: "fst (fst (Encrypt s p k)) =
             encryptionAlgorithmDelimiter # Encode a @ encryptionAlgorithmDelimiter # fst (c p k)"
    using Encrypt_frame [of s c p k] assms(1,2) by simp
  have n: "encryptionAlgorithmDelimiter \<notin> set (Encode a)"
    by (rule delimiter_not_in_Encode)
  have f: "deriveEncryptionAlgorithm (fst (fst (Encrypt s p k))) = (a, fst (c p k), None)"
    unfolding e deriveEncryptionAlgorithm_frame [OF n] Decode_Encode by simp
  have "fst (Decrypt s (fst (fst (Encrypt s p k))) k) = d (fst (c p k)) k"
    using Decrypt_with_decipher [OF f assms(3), of k] by simp
  with n f assms(4) show ?thesis by simp
qed

theorem Decrypt_Encrypt_roundtrip_witness:
  "ciphers toy_service ''aes-cfb'' = Some toy_cipher
   \<and> deciphers toy_service ''aes-cfb'' = Some toy_decipher
   \<and> toy_decipher (fst (toy_cipher ''hello'' ''k'')) ''k'' = (''hello'', None)
   \<and> fst (Decrypt toy_service (fst (fst (Encrypt toy_service ''hello'' ''k''))) ''k'')
       = (''hello'', None)"
proof -
  have c: "ciphers toy_service ''aes-cfb'' = Some toy_cipher"
    by (simp add: toy_service_def AesCfb_def)
  have d: "deciphers toy_service ''aes-cfb'' = Some toy_decipher"
    by (simp add: toy_service_def AesCfb_def)
  have r: "toy_decipher (fst (toy_cipher ''hello'' ''k'')) ''k'' = (''hello'', None)"
    by (simp add: toy_cipher_def toy_decipher_def)
  show ?thesis
    using Decrypt_Encrypt_roundtrip [OF toy_service_configured [symmetric] c d r] c d r
    by simp
qed

end
